theory Spec2Isabelle
  imports Complex_Main "HOL-Library.Word" "HOL-Library.Log_Nat"
begin

section \<open>Shared data: bytes, errors, transaction states\<close>

text \<open>
  Python \<open>bytes\<close> values are lists of octets. The exceptions the modelled code raises (or
  lets escape) are the constructors of \<open>error\<close>; a call that raises returns \<open>Inl e\<close>
  together with the object as the raise left it, since a Python exception does not
  undo the assignments made before it.
\<close>

type_synonym bytes = "8 word list"

datatype error =
    ConnectionException
  | ModbusException int
  | NotImplementedError
  | ZeroDivisionError
  | OverflowError

text \<open>
  Modelled from the spec: \<open>ModbusTransactionState\<close> is declared in
  \<open>pymodbus.utilities\<close>, which is not among the sources. The spec's data model gives
  the transaction state as one of Idle, Sending, Retrying; \<open>serial.py\<close> names exactly
  the members \<open>IDLE\<close>, \<open>SENDING\<close> and \<open>RETRYING\<close>.
\<close>

datatype ModbusTransactionState = IDLE | SENDING | RETRYING

section \<open>Python floats\<close>

text \<open>
  A Python \<open>float\<close> is an IEEE 754 binary64 number. A finite one is a rational, and the
  model represents it by that rational: \<open>fl x\<close> is the binary64 number nearest to the
  rational \<open>x\<close> (ties to the even significand), which is what a float literal, a
  conversion from \<open>int\<close> and every arithmetic operation deliver for the exact result \<open>x\<close>.
  The significand has 53 bits; below \<open>2 powi (- 1022)\<close> the spacing stays at
  \<open>2 powi (- 1074)\<close> (subnormal numbers). Results of magnitude \<open>2 powi 1024\<close> and above
  are infinities and have no rational: the only operation of the modelled code that can
  reach them, the conversion of a large \<open>int\<close>, raises \<open>OverflowError\<close> instead.

  \<open>ilog2 x\<close> is the exponent of the binade of a positive \<open>x\<close>: the integer \<open>i\<close> with
  \<open>2 powi i \<le> x < 2 powi (i + 1)\<close>.
\<close>

definition ilog2 :: "rat \<Rightarrow> int" where
  "ilog2 x =
     (let (p, q) = quotient_of x;
          d = bitlen p - bitlen q
      in if 2 powi d \<le> x then d else d - 1)"

definition round_half_even :: "rat \<Rightarrow> int" where
  "round_half_even y =
     (let f = \<lfloor>y\<rfloor>; r = y - of_int f
      in if r < 1 / 2 then f
         else if 1 / 2 < r then f + 1
         else if even f then f else f + 1)"

definition fl :: "rat \<Rightarrow> rat" where
  "fl x =
     (if x = 0 then 0
      else let e = max (ilog2 \<bar>x\<bar> - 52) (- 1074)
           in sgn x * of_int (round_half_even (\<bar>x\<bar> / 2 powi e)) * 2 powi e)"

text \<open>
  \<open>round(x, ndigits)\<close> on a float: CPython prints \<open>x\<close> correctly rounded to \<open>ndigits\<close>
  decimal places (ties to even, decided on the exact binary value) and reads the decimal
  string back as the nearest float.
\<close>

definition py_round :: "nat \<Rightarrow> rat \<Rightarrow> rat" where
  "py_round ndigits x = fl (of_int (round_half_even (x * 10 ^ ndigits)) / 10 ^ ndigits)"

text \<open>
  \<open>float / int\<close>: the \<open>int\<close> is converted first (\<open>OverflowError\<close> when it is too large for
  a float), and a zero divisor raises \<open>ZeroDivisionError\<close>.
\<close>

definition float_of_int :: "int \<Rightarrow> error + rat" where
  "float_of_int n =
     (let x = fl (of_int n) in if 2 ^ 1024 \<le> \<bar>x\<bar> then Inl OverflowError else Inr x)"

definition float_truediv_int :: "rat \<Rightarrow> int \<Rightarrow> error + rat" where
  "float_truediv_int a n =
     (case float_of_int n of
        Inl e \<Rightarrow> Inl e
      | Inr b \<Rightarrow> if b = 0 then Inl ZeroDivisionError else Inr (fl (a / b)))"

section \<open>The serial port behind \<open>self.socket\<close>\<close>

text \<open>
  The object returned by \<open>serial.serial_for_url\<close> belongs to pyserial. \<open>send\<close> and
  \<open>recv\<close> use three of its operations (the byte count, \<open>read\<close> and \<open>write\<close>), modelled
  on a record of what the device holds:
  \<^item> \<open>rx_buffer\<close>: the bytes waiting in the receive buffer;
  \<^item> \<open>arrivals\<close>: the chunks that will reach the receive buffer later, one per
    \<open>time.sleep\<close> of the polling loop, in order;
  \<^item> \<open>tx_log\<close>: every payload handed to \<open>write\<close>, oldest first;
  \<^item> \<open>in_waiting_supported\<close>: whether the byte count can be queried at all (the source's
    \<open>except NotImplementedError\<close> in \<open>send\<close> provides for a port where it cannot);
  \<^item> \<open>now\<close>: the reading of \<open>time.time()\<close>, in seconds.

  \<open>serial_in_waiting\<close> is the client's \<open>_in_waiting\<close>: both spellings of the pyserial
  attribute (\<open>in_waiting\<close>, \<open>inWaiting()\<close>) give the same count. \<open>serial_read\<close> is called
  only for counts the buffer holds, so it returns at once. \<open>time_sleep\<close> lets the clock
  advance and the next chunk arrive.
\<close>

record serial_port =
  rx_buffer :: bytes
  arrivals :: "bytes list"
  tx_log :: "bytes list"
  in_waiting_supported :: bool
  now :: rat

definition serial_in_waiting :: "serial_port \<Rightarrow> error + nat" where
  "serial_in_waiting sk =
     (if in_waiting_supported sk then Inr (length (rx_buffer sk)) else Inl NotImplementedError)"

definition serial_read :: "nat \<Rightarrow> serial_port \<Rightarrow> bytes \<times> serial_port" where
  "serial_read n sk = (take n (rx_buffer sk), sk\<lparr>rx_buffer := drop n (rx_buffer sk)\<rparr>)"

definition serial_write :: "bytes \<Rightarrow> serial_port \<Rightarrow> nat \<times> serial_port" where
  "serial_write payload sk = (length payload, sk\<lparr>tx_log := tx_log sk @ [payload]\<rparr>)"

definition time_sleep :: "rat \<Rightarrow> serial_port \<Rightarrow> serial_port" where
  "time_sleep secs sk =
     (case arrivals sk of
        [] \<Rightarrow> sk\<lparr>now := now sk + secs\<rparr>
      | chunk # later \<Rightarrow>
          sk\<lparr>rx_buffer := rx_buffer sk @ chunk, arrivals := later, now := now sk + secs\<rparr>)"

section \<open>\<open>ModbusSerialClient\<close>: the synchronous client\<close>

text \<open>
  The framer handed to the constructor matters only through
  \<open>isinstance(self.framer, ModbusRtuFramer)\<close>: it is \<open>ModbusRtuFramer\<close> (or a subclass of
  it), or some other framer.
\<close>

datatype framer_class = ModbusRtuFramer | OtherFramer

text \<open>
  \<open>self.params\<close>: the constructor's arguments, and \<open>timeout\<close>, which
  \<open>ModbusBaseClient.__init__\<close> (not among the sources) takes from the keyword arguments.
  A timeout is a number of seconds or \<open>None\<close>.
\<close>

record params =
  port :: string
  baudrate :: int
  bytesize :: int
  parity :: string
  stopbits :: int
  handle_local_echo :: bool
  timeout :: "rat option"

text \<open>
  The attributes of a client. \<open>t0\<close> is \<open>self._t0\<close>, which exists only once the
  constructor has assigned it.
\<close>

record ModbusSerialClient =
  framer :: framer_class
  params :: params
  socket :: "serial_port option"
  last_frame_end :: "rat option"
  state :: ModbusTransactionState
  inter_char_timeout :: rat
  silent_interval :: rat
  t0 :: "rat option"

text \<open>
  \<open>__init__\<close>. The class attributes give \<open>state = IDLE\<close>, \<open>inter_char_timeout = 0\<close> and
  \<open>silent_interval = 0\<close>. \<open>isinstance(self.framer, ModbusRtuFramer)\<close> is decided by the
  framer class handed in. \<open>1.75 / 1000\<close> is one float division; \<open>1.5\<close>, \<open>3.5\<close> and
  \<open>float(1 + 8 + 2)\<close> are binary64 numbers as they stand. An exception in the
  constructor leaves no object.
\<close>

definition ModbusSerialClient_init :: "framer_class \<Rightarrow> params \<Rightarrow> error + ModbusSerialClient" where
  "ModbusSerialClient_init fr ps =
     (let self = \<lparr>framer = fr, params = ps, socket = None, last_frame_end = None, state = IDLE,
                  inter_char_timeout = 0, silent_interval = 0, t0 = None\<rparr>
      in if fr = ModbusRtuFramer then
           (if baudrate (params self) > 19200 then
              (let self1 = self\<lparr>silent_interval := fl ((7 / 4) / 1000)\<rparr>
               in Inr (self1\<lparr>silent_interval := py_round 6 (silent_interval self1)\<rparr>))
            else
              (case float_truediv_int 11 (baudrate (params self)) of
                 Inl e \<Rightarrow> Inl e
               | Inr t \<Rightarrow>
                   (let self1 = self\<lparr>t0 := Some t\<rparr>;
                        self2 = self1\<lparr>inter_char_timeout := fl (3 / 2 * t)\<rparr>;
                        self3 = self2\<lparr>silent_interval := fl (7 / 2 * t)\<rparr>
                    in Inr (self3\<lparr>silent_interval := py_round 6 (silent_interval self3)\<rparr>))))
         else Inr self)"

text \<open>
  \<open>send\<close> returns either the number of bytes written or, on the retry path, the bytes
  it found in the receive buffer.
\<close>

datatype send_value = Size nat | Data bytes

type_synonym 'a raising = "(error + 'a) \<times> ModbusSerialClient"

text \<open>
  The tail of \<open>send\<close> after the receive buffer has been dealt with: enter
  \<open>SENDING\<close> unless already there, then write the request.
\<close>

definition send_write :: "ModbusSerialClient \<Rightarrow> serial_port \<Rightarrow> bytes \<Rightarrow> send_value raising" where
  "send_write self sk request =
     (let self1 = (if state self \<noteq> SENDING then self\<lparr>state := SENDING\<rparr> else self);
          (sz, sk') = serial_write request sk
      in (Inr (Size sz), self1\<lparr>socket := Some sk'\<rparr>))"

text \<open>
  \<open>send\<close>. Its first statement is \<open>super().send(request)\<close>; \<open>ModbusBaseClient\<close> is not
  among the sources, so the inherited method is the parameter \<open>super_send\<close>, applied to
  the object before anything else (its return value is dropped, as in the source).
  Whatever it has done to the object stays done when \<open>send\<close> raises or returns early.
\<close>

definition send ::
  "(ModbusSerialClient \<Rightarrow> bytes \<Rightarrow> ModbusSerialClient) \<Rightarrow> ModbusSerialClient \<Rightarrow> bytes
     \<Rightarrow> send_value raising" where
  "send super_send self0 request =
     (let self = super_send self0 request in
      case socket self of
        None \<Rightarrow> (Inl ConnectionException, self)
      | Some sk \<Rightarrow>
          if request \<noteq> [] then
            (case serial_in_waiting sk of
               Inl NotImplementedError \<Rightarrow> send_write self sk request
             | Inl e \<Rightarrow> (Inl e, self)
             | Inr waitingbytes \<Rightarrow>
                 if waitingbytes \<noteq> 0 then
                   (let (result, sk') = serial_read waitingbytes sk;
                        self' = self\<lparr>socket := Some sk'\<rparr>
                    in if state self' = RETRYING then (Inr (Data result), self')
                       else send_write self' sk' request)
                 else send_write self sk request)
          else (Inr (Size 0), self))"

text \<open>
  Modelled from the spec: \<open>ModbusBaseClient.send\<close> (\<open>pymodbus/client/base.py\<close>, not among
  the sources), the method that \<open>send\<close> calls first. The spec has \<open>send\<close> move the
  transaction state to Sending during an active exchange (section 4.2) and keeps
  Retrying apart, as the state in which stale bytes are the retry payload. The base
  class's method, as pymodbus has it, sets \<open>state\<close> to \<open>SENDING\<close> unless it is \<open>RETRYING\<close> and
  does nothing else to the object. (It returns the request, which the caller drops.)
\<close>

definition ModbusBaseClient_send :: "ModbusSerialClient \<Rightarrow> bytes \<Rightarrow> ModbusSerialClient" where
  "ModbusBaseClient_send self request =
     (if state self \<noteq> RETRYING then self\<lparr>state := SENDING\<rparr> else self)"

text \<open>
  \<open>_wait_for_data\<close>. The loop polls the byte count every 10 ms until the count has
  become non-zero and then stops changing, or the configured timeout has elapsed. With
  no timeout (\<open>None\<close> or \<open>0\<close>) and no data it never leaves the loop, so the model is a
  partial function: \<open>None\<close> is "does not return". \<open>NotImplementedError\<close> from
  \<open>_in_waiting\<close> is not caught here and escapes.
\<close>

definition condition :: "rat option \<Rightarrow> rat \<Rightarrow> serial_port \<Rightarrow> bool" where
  "condition tmo start sk =
     (case tmo of
        None \<Rightarrow> True
      | Some t \<Rightarrow> if t \<noteq> 0 then now sk - start \<le> t else True)"

partial_function (option) wait_loop ::
  "rat option \<Rightarrow> rat \<Rightarrow> nat \<Rightarrow> bool \<Rightarrow> serial_port \<Rightarrow> ((error + nat) \<times> serial_port) option" where
  "wait_loop tmo start sz more_data sk =
     (if condition tmo start sk then
        (case serial_in_waiting sk of
           Inl e \<Rightarrow> Some (Inl e, sk)
         | Inr available \<Rightarrow>
             if (more_data \<and> available = 0) \<or> (more_data \<and> available = sz)
             then Some (Inr sz, sk)
             else if available \<noteq> 0 \<and> available \<noteq> sz
             then wait_loop tmo start available True (time_sleep (1 / 100) sk)
             else wait_loop tmo start sz more_data (time_sleep (1 / 100) sk))
      else Some (Inr sz, sk))"

declare wait_loop.simps [code]

definition wait_for_data :: "rat option \<Rightarrow> serial_port \<Rightarrow> ((error + nat) \<times> serial_port) option" where
  "wait_for_data tmo sk = wait_loop tmo (now sk) 0 False sk"

text \<open>
  \<open>recv\<close>. \<open>super().recv(size)\<close> is the parameter \<open>super_recv\<close>, as for \<open>send\<close>. The
  requested size is \<open>None\<close> or a byte count. The final \<open>read\<close> never asks for more than
  the buffer holds (a size above the count has just been replaced by a count the loop
  saw), so \<open>serial_read\<close> returns at once.
\<close>

definition recv_read :: "ModbusSerialClient \<Rightarrow> serial_port \<Rightarrow> nat \<Rightarrow> bytes raising" where
  "recv_read self sk sz =
     (let (result, sk') = serial_read sz sk in (Inr result, self\<lparr>socket := Some sk'\<rparr>))"

definition recv_sized :: "ModbusSerialClient \<Rightarrow> serial_port \<Rightarrow> nat \<Rightarrow> (bytes raising) option" where
  "recv_sized self sk sz =
     (case serial_in_waiting sk of
        Inl e \<Rightarrow> Some (Inl e, self\<lparr>socket := Some sk\<rparr>)
      | Inr waiting \<Rightarrow>
          if sz > waiting then
            (case wait_for_data (timeout (params self)) sk of
               None \<Rightarrow> None
             | Some (Inl e, sk') \<Rightarrow> Some (Inl e, self\<lparr>socket := Some sk'\<rparr>)
             | Some (Inr sz', sk') \<Rightarrow> Some (recv_read self sk' sz'))
          else Some (recv_read self sk sz))"

definition recv ::
  "(ModbusSerialClient \<Rightarrow> nat option \<Rightarrow> ModbusSerialClient) \<Rightarrow> ModbusSerialClient \<Rightarrow> nat option
     \<Rightarrow> (bytes raising) option" where
  "recv super_recv self0 sz =
     (let self = super_recv self0 sz in
      case socket self of
        None \<Rightarrow> Some (Inl ConnectionException, self)
      | Some sk \<Rightarrow>
          (case sz of
             None \<Rightarrow>
               (case wait_for_data (timeout (params self)) sk of
                  None \<Rightarrow> None
                | Some (Inl e, sk') \<Rightarrow> Some (Inl e, self\<lparr>socket := Some sk'\<rparr>)
                | Some (Inr sz', sk') \<Rightarrow> recv_sized self sk' sz')
           | Some n \<Rightarrow> recv_sized self sk n))"

section \<open>\<open>AsyncModbusSerialClient\<close>: connection loss and delayed reconnection\<close>

text \<open>
  The asynchronous client runs on one asyncio event loop: between two \<open>await\<close>s a
  coroutine is not interrupted. The model keeps the attributes of \<open>self\<close> that the
  reconnect logic reads and writes, and beside them what the event loop holds and what
  an observer can count:
  \<^item> \<open>delay_ms\<close>, \<open>reconnect_delay_max\<close> (that is \<open>params.reconnect_delay_max\<close>),
    \<open>connected\<close> (whether \<open>_connected_event\<close> is set), \<open>transport\<close> (whether a transport
    object is held; the inherited protocol code stores it) and \<open>reconnect_task\<close> (the
    stored task handle, \<open>None\<close> or a task);
  \<^item> \<open>pending\<close>: the reconnect tasks the event loop holds that have been created and have
    neither finished their sleep nor been cancelled;
  \<^item> \<open>spawned\<close>: how many tasks \<open>asyncio.create_task\<close> has created (the next task's
    identity);
  \<^item> \<open>slept\<close>: for each \<open>asyncio.sleep(self.delay_ms / 1000)\<close> that a reconnect task has
    completed, the value of \<open>delay_ms\<close> at its end, oldest first (milliseconds);
  \<^item> \<open>attempts\<close>: how many calls of \<open>connect\<close> have come back from
    \<open>create_serial_connection\<close>, with a connection or with an exception;
  \<^item> \<open>reconnects\<close>: how many times a reconnect task has called \<open>connect\<close>;
  \<^item> \<open>transport_closes\<close>: how many times \<open>self.transport.close()\<close> has been called;
  \<^item> \<open>ignored\<close>: how many times the warning "Ignoring launch of delayed reconnection"
    has been logged.
\<close>

record AsyncModbusSerialClient =
  delay_ms :: int
  reconnect_delay_max :: int
  connected :: bool
  transport :: bool
  reconnect_task :: "nat option"
  pending :: "nat list"
  spawned :: nat
  slept :: "int list"
  attempts :: nat
  reconnects :: nat
  transport_closes :: nat
  ignored :: nat

text \<open>
  Modelled from the spec: \<open>ModbusBaseClient.__init__\<close> (not among the sources) sets
  \<open>delay_ms\<close> and \<open>params.reconnect_delay_max\<close>; the spec calls them the initial delay
  \<open>d\<close> and the ceiling \<open>M\<close>. The rest is \<open>AsyncModbusSerialClient.__init__\<close> and the class
  attribute \<open>transport = None\<close>.
\<close>

definition AsyncModbusSerialClient_init :: "int \<Rightarrow> int \<Rightarrow> AsyncModbusSerialClient" where
  "AsyncModbusSerialClient_init d M =
     \<lparr>delay_ms = d, reconnect_delay_max = M, connected = False, transport = False,
      reconnect_task = None, pending = [], spawned = 0, slept = [], attempts = 0,
      reconnects = 0, transport_closes = 0, ignored = 0\<rparr>"

text \<open>\<open>_launch_reconnect\<close>: a stored handle makes the call a logged no-op.\<close>

definition launch_reconnect :: "AsyncModbusSerialClient \<Rightarrow> AsyncModbusSerialClient" where
  "launch_reconnect self =
     (if reconnect_task self \<noteq> None then self\<lparr>ignored := ignored self + 1\<rparr>
      else self\<lparr>reconnect_task := Some (spawned self),
                pending := pending self @ [spawned self],
                spawned := spawned self + 1\<rparr>)"

text \<open>
  The two callbacks. (\<open>client_lost_connection\<close> also logs an error when the protocol it
  is handed is not \<open>self\<close>; that changes nothing.)
\<close>

definition client_made_connection :: "AsyncModbusSerialClient \<Rightarrow> AsyncModbusSerialClient" where
  "client_made_connection self = (if \<not> connected self then self\<lparr>connected := True\<rparr> else self)"

definition client_lost_connection :: "AsyncModbusSerialClient \<Rightarrow> AsyncModbusSerialClient" where
  "client_lost_connection self0 =
     (let self = self0\<lparr>connected := False\<rparr>
      in if delay_ms self \<noteq> 0 then launch_reconnect self else self)"

text \<open>
  \<open>connect\<close>. Whether \<open>create_serial_connection\<close> and the wait for the connected event
  go through is the environment's choice \<open>ok\<close>. When they do, the event has been set by
  the \<open>client_made_connection\<close> callback, which is therefore part of that branch. When
  they raise, a reconnect is launched if the delay is positive.
\<close>

definition connect :: "bool \<Rightarrow> AsyncModbusSerialClient \<Rightarrow> AsyncModbusSerialClient" where
  "connect ok self0 =
     (let self = self0\<lparr>attempts := attempts self0 + 1\<rparr>
      in if ok then client_made_connection self
         else if delay_ms self > 0 then launch_reconnect self else self)"

text \<open>
  \<open>_reconnect\<close>, the body of a reconnect task, from the end of its sleep on, in two
  parts. \<open>reconnect_awake\<close> is what the task does before it calls \<open>connect\<close>: the sleep is
  recorded, the delay is doubled under the ceiling and the handle is cleared.
  \<open>reconnect\<close> is that followed by the \<open>connect\<close> the task calls, with the outcome \<open>ok\<close>.
  (What is recorded is \<open>delay_ms\<close> as the task finds it when it wakes. The sleep lasted
  the \<open>delay_ms\<close> read when it began; the two agree unless \<open>close\<close> has zeroed the delay
  in between, since nothing else writes \<open>delay_ms\<close> while a task sleeps.)
\<close>

definition reconnect_awake :: "AsyncModbusSerialClient \<Rightarrow> AsyncModbusSerialClient" where
  "reconnect_awake self0 =
     (let self1 = self0\<lparr>slept := slept self0 @ [delay_ms self0]\<rparr>;
          self2 = self1\<lparr>delay_ms := min (2 * delay_ms self1) (reconnect_delay_max self1)\<rparr>;
          self3 = self2\<lparr>reconnect_task := None\<rparr>
      in self3\<lparr>reconnects := reconnects self3 + 1\<rparr>)"

definition reconnect :: "bool \<Rightarrow> AsyncModbusSerialClient \<Rightarrow> AsyncModbusSerialClient" where
  "reconnect ok self0 = connect ok (reconnect_awake self0)"

datatype notification = Made | Lost

fun notify :: "notification \<Rightarrow> AsyncModbusSerialClient \<Rightarrow> AsyncModbusSerialClient" where
  "notify Made self = client_made_connection self"
| "notify Lost self = client_lost_connection self"

text \<open>
  \<open>close\<close>. It zeroes the delay. If the client is connected it closes the transport and
  then waits, at \<open>await self.async_close()\<close> and \<open>await asyncio.sleep(0.1)\<close>; only after
  that does it cancel the stored task and clear the handle. While it waits the event
  loop runs whatever else is ready (callbacks of the transport layer, a reconnect task
  whose sleep ends, other calls of the program): \<open>meanwhile\<close> is what that does to the
  object. \<open>async_close\<close> is inherited and not among the sources; what it brings about is
  part of \<open>meanwhile\<close>. A client that is not connected is closed without waiting.
  Cancelling a task removes it from the event loop; a task whose sleep has ended has
  cleared the handle, so it is not cancelled.
\<close>

definition close ::
  "(AsyncModbusSerialClient \<Rightarrow> AsyncModbusSerialClient) \<Rightarrow> AsyncModbusSerialClient
     \<Rightarrow> AsyncModbusSerialClient" where
  "close meanwhile self0 =
     (let self1 = self0\<lparr>delay_ms := 0\<rparr>;
          self2 =
            (if connected self1 then
               meanwhile
                 (if transport self1 then self1\<lparr>transport_closes := transport_closes self1 + 1\<rparr>
                  else self1)
             else self1)
      in case reconnect_task self2 of
           None \<Rightarrow> self2\<lparr>reconnect_task := None\<rparr>
         | Some t \<Rightarrow> self2\<lparr>pending := removeAll t (pending self2), reconnect_task := None\<rparr>)"

text \<open>
  What can happen to a client, one event at a time: the program calls \<open>connect\<close> or
  \<open>close\<close>, the transport layer notifies, or the sleep of a reconnect task ends (possible
  only for a task the event loop still holds; the task leaves the pending set). A call
  of \<open>connect\<close> acts on the client when its wait for the connection ends: \<open>Connect ok\<close> is
  that moment, for a call made by the program or by a reconnect task. When the sleep of
  a task ends, either the \<open>connect\<close> it calls ends before anything else happens (\<open>Wake\<close>),
  or the task is left waiting inside \<open>connect\<close> (\<open>Resume\<close>) and that call ends at a later
  \<open>Connect\<close>. A \<open>Close\<close> carries the events that happen while that call of \<open>close\<close>
  waits, in order; they can be any events, the end of a task's sleep and another \<open>close\<close>
  included.
\<close>

datatype event =
    Connect bool
  | Close "event list"
  | Notify notification
  | Wake nat bool
  | Resume nat

primrec step :: "event \<Rightarrow> AsyncModbusSerialClient \<Rightarrow> AsyncModbusSerialClient" where
  "step (Connect ok) = connect ok"
| "step (Close during) =
     close (\<lambda>waiting. fold (\<lambda>happens. happens) (map step during) waiting)"
| "step (Notify n) = notify n"
| "step (Wake t ok) =
     (\<lambda>self. if t \<in> set (pending self)
             then reconnect ok (self\<lparr>pending := removeAll t (pending self)\<rparr>)
             else self)"
| "step (Resume t) =
     (\<lambda>self. if t \<in> set (pending self)
             then reconnect_awake (self\<lparr>pending := removeAll t (pending self)\<rparr>)
             else self)"

definition run :: "event list \<Rightarrow> AsyncModbusSerialClient \<Rightarrow> AsyncModbusSerialClient" where
  "run evs self = fold step evs self"

section \<open>\<open>ModbusClientMixin.execute\<close>\<close>

text \<open>
  The request is opaque to the mixin, so its type is a parameter. \<open>INTERNAL_ERROR\<close> comes
  from \<open>pymodbus.constants\<close>, not among the sources: it is the parameter
  \<open>internal_error\<close>.
\<close>

definition execute :: "int \<Rightarrow> 'request \<Rightarrow> error + 'response" where
  "execute internal_error request = Inl (ModbusException internal_error)"

section \<open>Invariants and scenarios\<close>

text \<open>
  The stored handle and the event loop agree: the pending reconnect tasks are exactly
  the one the handle names, or none.
\<close>

definition handle_holds_pending :: "AsyncModbusSerialClient \<Rightarrow> bool" where
  "handle_holds_pending self =
     (pending self = (case reconnect_task self of None \<Rightarrow> [] | Some t \<Rightarrow> [t]))"




text \<open>
  A link that stays down: a trigger (the loss of the connection, or a failed \<open>connect\<close>)
  launches reconnect task 0, and then \<open>n\<close> reconnect tasks in a row finish their sleep and
  fail to connect, each launching the next.
\<close>

definition failing_reconnects :: "event \<Rightarrow> nat \<Rightarrow> event list" where
  "failing_reconnects trigger n = trigger # map (\<lambda>k. Wake k False) [0..<n]"

text \<open>A client that has just lost its connection, with a reconnect task pending.\<close>

definition flapping :: AsyncModbusSerialClient where
  "flapping = run [Notify Lost] (AsyncModbusSerialClient_init 100 300000)"


text \<open>Constructor arguments for the concrete cases: a baud rate, no timeout.\<close>

definition example_params :: "int \<Rightarrow> params" where
  "example_params b =
     \<lparr>port = ''/dev/ttyUSB0'', baudrate = b, bytesize = 8, parity = ''N'', stopbits = 1,
      handle_local_echo = False, timeout = None\<rparr>"

text \<open>
  A float is rounded to microsecond precision when rounding it to six decimal places
  gives it back.
\<close>

definition microsecond_rounded :: "rat \<Rightarrow> bool" where
  "microsecond_rounded x = (py_round 6 x = x)"

text \<open>
  The clients the constructor builds for an RTU framer at 9600 and at 38400 baud, with
  the floats written out: \<open>silent_interval\<close> is the float \<open>0.00401\<close>, respectively
  \<open>0.00175\<close>; at 9600 baud \<open>inter_char_timeout\<close> is the float nearest to \<open>0.00171875\<close>.
\<close>

definition rtu_9600 :: ModbusSerialClient where
  "rtu_9600 =
     \<lparr>framer = ModbusRtuFramer, params = example_params 9600, socket = None,
      last_frame_end = None, state = IDLE,
      inter_char_timeout = 7926335344172073 / 4611686018427387904,
      silent_interval = 288950952092091 / 72057594037927936,
      t0 = Some (2642111781390691 / 2305843009213693952)\<rparr>"

definition rtu_38400 :: ModbusSerialClient where
  "rtu_38400 =
     \<lparr>framer = ModbusRtuFramer, params = example_params 38400, socket = None,
      last_frame_end = None, state = IDLE, inter_char_timeout = 0,
      silent_interval = 8070450532247929 / 4611686018427387904, t0 = None\<rparr>"

text \<open>The 9600 baud client in a given transaction state and with a given socket.\<close>

definition example_client :: "ModbusTransactionState \<Rightarrow> serial_port option \<Rightarrow> ModbusSerialClient" where
  "example_client st sk = rtu_9600\<lparr>socket := sk, state := st\<rparr>"

text \<open>A port holding two stale bytes.\<close>

definition stale_port :: serial_port where
  "stale_port =
     \<lparr>rx_buffer = [0xDE, 0xAD], arrivals = [], tx_log = [], in_waiting_supported = True,
      now = 0\<rparr>"

text \<open>
  A port on which a response arrives in two bursts: one byte is in the buffer, four
  more arrive during the first 10 ms sleep.
\<close>

definition bursty_port :: serial_port where
  "bursty_port =
     \<lparr>rx_buffer = [1], arrivals = [[2, 3, 4, 5]], tx_log = [], in_waiting_supported = True,
      now = 0\<rparr>"

text \<open>An inherited method that leaves the object alone, as the base class's \<open>recv\<close> does.\<close>

definition inherited_noop :: "ModbusSerialClient \<Rightarrow> 'a \<Rightarrow> ModbusSerialClient" where
  "inherited_noop self arg = self"

section \<open>The timing values of an RTU client\<close>

subsection \<open>Rounding to binary64\<close>

lemma bitlen_powi_bounds:
  assumes "0 < p"
  shows "2 powi (bitlen p - 1) \<le> (of_int p :: rat)" and "(of_int p :: rat) < 2 powi bitlen p"
proof -
  have b1: "1 \<le> bitlen p"
    using assms bitlen_eq_zero_iff [of p] bitlen_nonneg [of p] by linarith
  from bitlen_bounds [OF assms]
  have lo: "2 ^ nat (bitlen p - 1) \<le> p" and hi: "p < 2 ^ nat (bitlen p)" by simp_all
  have "(2::rat) powi (bitlen p - 1) = 2 ^ nat (bitlen p - 1)"
    using b1 by (simp add: power_int_nonneg_exp)
  also have "\<dots> = of_int (2 ^ nat (bitlen p - 1))" by simp
  also have "\<dots> \<le> of_int p" using lo by (simp only: of_int_le_iff)
  finally show "2 powi (bitlen p - 1) \<le> (of_int p :: rat)" .
  have "(of_int p :: rat) < of_int (2 ^ nat (bitlen p))" using hi by (simp only: of_int_less_iff)
  also have "\<dots> = 2 ^ nat (bitlen p)" by simp
  also have "\<dots> = 2 powi bitlen p"
    using b1 by (simp add: power_int_nonneg_exp)
  finally show "(of_int p :: rat) < 2 powi bitlen p" .
qed

lemma ilog2_bounds:
  assumes "0 < x"
  shows "2 powi ilog2 x \<le> x" and "x < 2 powi (ilog2 x + 1)"
proof -
  obtain p q where pq: "quotient_of x = (p, q)" by force
  have q: "0 < q" using quotient_of_denom_pos [OF pq] .
  have x: "x = of_int p / of_int q" using quotient_of_div [OF pq] .
  have p: "0 < p" using assms x q by (simp add: zero_less_divide_iff)
  define d where "d = bitlen p - bitlen q"
  note bp = bitlen_powi_bounds [OF p] and bq = bitlen_powi_bounds [OF q]
  have qpos: "(0::rat) < of_int q" using q by simp
  have up: "x < 2 powi (d + 1)"
  proof -
    have "of_int p * 2 powi (bitlen q - 1) < 2 powi bitlen p * (of_int q :: rat)"
    proof -
      have "of_int p * 2 powi (bitlen q - 1) \<le> of_int p * (of_int q :: rat)"
        using bq(1) p by (simp add: mult_left_mono)
      also have "\<dots> < 2 powi bitlen p * of_int q"
        using bp(2) qpos by (simp add: mult_strict_right_mono)
      finally show ?thesis .
    qed
    then have "x < 2 powi bitlen p / 2 powi (bitlen q - 1)"
      unfolding x using qpos by (simp add: field_simps)
    also have "\<dots> = 2 powi (d + 1)"
      unfolding d_def by (simp add: power_int_diff power_int_add field_simps)
    finally show ?thesis .
  qed
  have lo: "2 powi (d - 1) < x"
  proof -
    have "2 powi (bitlen p - 1) * of_int q < (of_int p :: rat) * 2 powi bitlen q"
    proof -
      have "2 powi (bitlen p - 1) * (of_int q :: rat) < 2 powi (bitlen p - 1) * 2 powi bitlen q"
        using bq(2) by (simp add: mult_strict_left_mono)
      also have "\<dots> \<le> of_int p * 2 powi bitlen q"
        using bp(1) by (simp add: mult_right_mono)
      finally show ?thesis .
    qed
    then have "2 powi (bitlen p - 1) / 2 powi bitlen q < x"
      unfolding x using qpos by (simp add: field_simps)
    moreover have "(2::rat) powi (bitlen p - 1) / 2 powi bitlen q = 2 powi (d - 1)"
      unfolding d_def by (simp add: power_int_diff power_int_add field_simps)
    ultimately show ?thesis by simp
  qed
  have il: "ilog2 x = (if 2 powi d \<le> x then d else d - 1)"
    by (simp add: ilog2_def pq d_def Let_def)
  show "2 powi ilog2 x \<le> x" using lo by (simp add: il)
  show "x < 2 powi (ilog2 x + 1)" using up by (auto simp: il)
qed

lemma ilog2_ge:
  assumes "0 < x" and "2 powi k \<le> x"
  shows "k \<le> ilog2 x"
proof (rule ccontr)
  assume "\<not> k \<le> ilog2 x"
  then have "ilog2 x + 1 \<le> k" by simp
  then have "(2::rat) powi (ilog2 x + 1) \<le> 2 powi k"
    by (intro power_int_increasing) simp_all
  with ilog2_bounds(2) [OF assms(1)] assms(2) show False by simp
qed

lemma ilog2_le:
  assumes "0 < x" and "x < 2 powi (k + 1)"
  shows "ilog2 x \<le> k"
proof (rule ccontr)
  assume "\<not> ilog2 x \<le> k"
  then have "k + 1 \<le> ilog2 x" by simp
  then have "(2::rat) powi (k + 1) \<le> 2 powi ilog2 x"
    by (intro power_int_increasing) simp_all
  with ilog2_bounds(1) [OF assms(1)] assms(2) show False by simp
qed

lemma round_half_even_error: "\<bar>of_int (round_half_even y) - y\<bar> \<le> 1 / 2"
proof -
  have "of_int \<lfloor>y\<rfloor> \<le> y" "y < of_int \<lfloor>y\<rfloor> + 1" by linarith+
  then show ?thesis
    by (auto simp: round_half_even_def Let_def abs_le_iff)
qed

lemma round_half_even_unique:
  assumes "\<bar>y - of_int k\<bar> < 1 / 2"
  shows "round_half_even y = k"
proof -
  have a: "of_int k - 1 / 2 < y" "y < of_int k + 1 / 2"
    using assms by linarith+
  consider "of_int k \<le> y" | "y < of_int k" by linarith
  then show ?thesis
  proof cases
    case 1
    then have "\<lfloor>y\<rfloor> = k" using a by (intro floor_unique) simp_all
    then show ?thesis using a by (simp add: round_half_even_def Let_def)
  next
    case 2
    then have f: "\<lfloor>y\<rfloor> = k - 1" using a by (intro floor_unique) simp_all
    have "\<not> y - (of_int k - 1) < 1 / 2" "1 / 2 < y - (of_int k - 1)"
      using a by simp_all
    then show ?thesis using a by (simp add: round_half_even_def Let_def f)
  qed
qed

lemma round_half_even_of_int [simp]: "round_half_even (of_int k) = k"
  by (rule round_half_even_unique) simp

lemma fl_pos_unfold:
  assumes "0 < x" and "2 powi (- 1022) \<le> x"
  shows "fl x = of_int (round_half_even (x / 2 powi (ilog2 x - 52))) * 2 powi (ilog2 x - 52)"
proof -
  have "- 1022 \<le> ilog2 x" using assms by (rule ilog2_ge)
  then have "max (ilog2 x - 52) (- 1074) = ilog2 x - 52" by simp
  then show ?thesis using assms(1) by (simp add: fl_def Let_def)
qed

lemma fl_error:
  assumes "2 powi (- 1022) \<le> x"
  shows "\<bar>fl x - x\<bar> \<le> x / 2 ^ 53"
proof -
  have pos: "0 < x" using assms by (rule less_le_trans [rotated]) simp
  define e where "e = ilog2 x - 52"
  define m where "m = round_half_even (x / 2 powi e)"
  have fl: "fl x = of_int m * 2 powi e"
    using fl_pos_unfold [OF pos assms] by (simp add: e_def m_def)
  have pe: "(0::rat) < 2 powi e" by simp
  have "\<bar>of_int m - x / 2 powi e\<bar> \<le> 1 / 2"
    unfolding m_def by (rule round_half_even_error)
  then have "\<bar>of_int m - x / 2 powi e\<bar> * 2 powi e \<le> 1 / 2 * 2 powi e"
    using pe by (intro mult_right_mono) simp_all
  moreover have "\<bar>of_int m - x / 2 powi e\<bar> * 2 powi e = \<bar>of_int m * 2 powi e - x\<bar>"
  proof -
    have "\<bar>of_int m - x / 2 powi e\<bar> * 2 powi e = \<bar>(of_int m - x / 2 powi e) * 2 powi e\<bar>"
      using pe by (simp add: abs_mult)
    also have "(of_int m - x / 2 powi e) * 2 powi e = of_int m * 2 powi e - x"
      using pe by (simp add: field_simps)
    finally show ?thesis .
  qed
  ultimately have err: "\<bar>fl x - x\<bar> \<le> 2 powi e / 2" by (simp add: fl)
  have "(2::rat) powi e = 2 powi ilog2 x / 2 ^ 52"
    unfolding e_def by (simp add: power_int_diff)
  also have "\<dots> \<le> x / 2 ^ 52"
    using ilog2_bounds(1) [OF pos] by (simp add: divide_right_mono)
  finally have "(2::rat) powi e / 2 \<le> x / 2 ^ 53" by simp
  with err show ?thesis by linarith
qed

lemma fl_of_int_exact:
  assumes "0 < n" and "n < 2 ^ 53"
  shows "fl (of_int n) = of_int n"
proof -
  let ?x = "of_int n :: rat"
  have pos: "0 < ?x" using assms(1) by simp
  have one: "1 \<le> ?x" using assms(1) by simp
  have norm: "2 powi (- 1022) \<le> ?x"
  proof -
    have "(2::rat) powi (- 1022) \<le> 2 powi 0"
      by (intro power_int_increasing) simp_all
    with one show ?thesis by simp
  qed
  have i0: "0 \<le> ilog2 ?x"
    using one by (intro ilog2_ge [OF pos]) simp
  have "?x < of_int (2 ^ 53)" using assms(2) by (simp only: of_int_less_iff)
  then have "?x < 2 powi (52 + 1)" by simp
  then have i52: "ilog2 ?x \<le> 52" by (rule ilog2_le [OF pos])
  define k where "k = nat (52 - ilog2 ?x)"
  have e: "ilog2 ?x - 52 = - int k" using i52 by (simp add: k_def)
  have pw: "(2::rat) powi (- int k) = 1 / 2 ^ k"
    by (simp add: power_int_minus_divide)
  have "?x / 2 powi (ilog2 ?x - 52) = of_int (n * 2 ^ k)"
    by (simp add: e pw)
  then have "round_half_even (?x / 2 powi (ilog2 ?x - 52)) = n * 2 ^ k"
    by (simp only: round_half_even_of_int)
  then show ?thesis
    unfolding fl_pos_unfold [OF pos norm] by (simp add: e pw)
qed

lemma abs_scale:
  fixes a b c :: rat
  assumes "0 < c"
  shows "\<bar>a - b / c\<bar> * c = \<bar>a * c - b\<bar>"
proof -
  have "(a - b / c) * c = a * c - b" using assms by (simp add: field_simps)
  then have "\<bar>a * c - b\<bar> = \<bar>(a - b / c) * c\<bar>" by (simp only:)
  also have "\<dots> = \<bar>a - b / c\<bar> * \<bar>c\<bar>" by (rule abs_mult)
  also have "\<bar>c\<bar> = c" using assms by simp
  finally show ?thesis by simp
qed

lemma py_round6_fixed:
  assumes "0 < k" and "k < 2 ^ 52"
  shows "py_round 6 (fl (of_int k / 10 ^ 6)) = fl (of_int k / 10 ^ 6)"
proof -
  let ?y = "of_int k / 10 ^ 6 :: rat"
  have k1: "(1::rat) \<le> of_int k" using assms(1) by simp
  have kb: "(of_int k :: rat) < 2 ^ 52"
  proof -
    have "(of_int k :: rat) < of_int (2 ^ 52)" using assms(2) by (simp only: of_int_less_iff)
    then show ?thesis by simp
  qed
  have norm: "2 powi (- 1022) \<le> ?y"
  proof -
    have "(2::rat) powi (- 1022) \<le> 2 powi (- 20)"
      by (intro power_int_increasing) simp_all
    also have "\<dots> \<le> 1 / 10 ^ 6" by (simp add: power_int_minus_divide)
    also have "\<dots> \<le> ?y" using k1 by (simp add: divide_right_mono)
    finally show ?thesis .
  qed
  have "\<bar>fl ?y - ?y\<bar> \<le> ?y / 2 ^ 53" using norm by (rule fl_error)
  then have "\<bar>fl ?y - ?y\<bar> * 10 ^ 6 \<le> ?y / 2 ^ 53 * 10 ^ 6"
    by (intro mult_right_mono) simp_all
  moreover have "\<bar>fl ?y - ?y\<bar> * 10 ^ 6 = \<bar>fl ?y * 10 ^ 6 - of_int k\<bar>"
    by (rule abs_scale) simp
  moreover have "?y / 2 ^ 53 * 10 ^ 6 = of_int k / 2 ^ 53" by simp
  moreover have "(of_int k :: rat) / 2 ^ 53 < 1 / 2" using kb by simp
  ultimately have "\<bar>fl ?y * 10 ^ 6 - of_int k\<bar> < 1 / 2" by linarith
  then have "round_half_even (fl ?y * 10 ^ 6) = k" by (rule round_half_even_unique)
  then show ?thesis by (simp add: py_round_def)
qed

lemma py_round6_idem:
  assumes "1 / 10 ^ 6 \<le> x" and "x \<le> 10 ^ 9"
  shows "py_round 6 (py_round 6 x) = py_round 6 x"
proof -
  define k where "k = round_half_even (x * 10 ^ 6)"
  have e: "\<bar>of_int k - x * 10 ^ 6\<bar> \<le> 1 / 2"
    unfolding k_def by (rule round_half_even_error)
  have "1 \<le> x * 10 ^ 6" using assms(1) by (simp add: field_simps)
  with e have "(1::rat) / 2 \<le> of_int k" by linarith
  then have "(0::rat) < of_int k" by linarith
  then have k0: "0 < k" by (simp only: of_int_0_less_iff)
  have "x * 10 ^ 6 \<le> 10 ^ 15" using assms(2) by simp
  with e have "(of_int k :: rat) \<le> 10 ^ 15 + 1 / 2" by linarith
  then have "(of_int k :: rat) < of_int (2 ^ 52)" by simp
  then have k1: "k < 2 ^ 52" by (simp only: of_int_less_iff)
  show ?thesis
    using py_round6_fixed [OF k0 k1] by (simp add: py_round_def k_def)
qed

lemma float_of_small_int:
  assumes "0 < n" and "n \<le> 19200"
  shows "float_of_int n = Inr (of_int n)"
proof -
  have "n < 2 ^ 53" using assms(2) by simp
  then have e: "fl (of_int n) = of_int n" by (rule fl_of_int_exact [OF assms(1)])
  have "(of_int n :: rat) \<le> of_int 19200" using assms(2) by (simp only: of_int_le_iff)
  also have "\<dots> < 2 ^ 1024" by simp
  finally have "\<not> 2 ^ 1024 \<le> \<bar>of_int n :: rat\<bar>" using assms(1) by simp
  then show ?thesis by (simp add: float_of_int_def e Let_def)
qed

lemma init_rtu_slow:
  assumes "0 < baudrate ps" and "baudrate ps \<le> 19200"
  shows "ModbusSerialClient_init ModbusRtuFramer ps =
           Inr \<lparr>framer = ModbusRtuFramer, params = ps, socket = None, last_frame_end = None,
                state = IDLE,
                inter_char_timeout = fl (3 / 2 * fl (11 / of_int (baudrate ps))),
                silent_interval = py_round 6 (fl (7 / 2 * fl (11 / of_int (baudrate ps)))),
                t0 = Some (fl (11 / of_int (baudrate ps)))\<rparr>"
proof -
  have "float_truediv_int 11 (baudrate ps) = Inr (fl (11 / of_int (baudrate ps)))"
    using assms by (simp add: float_truediv_int_def float_of_small_int)
  then show ?thesis
    using assms(2) by (simp add: ModbusSerialClient_init_def Let_def)
qed

lemma fl_0_00175: "fl (7 / 4000) = 8070450532247929 / 4611686018427387904"
  by code_simp

lemma round_0_00175:
  "py_round 6 (8070450532247929 / 4611686018427387904) = 8070450532247929 / 4611686018427387904"
  by code_simp

lemma init_rtu_fast:
  assumes "19200 < baudrate ps"
  shows "ModbusSerialClient_init ModbusRtuFramer ps =
           Inr \<lparr>framer = ModbusRtuFramer, params = ps, socket = None, last_frame_end = None,
                state = IDLE, inter_char_timeout = 0,
                silent_interval = 8070450532247929 / 4611686018427387904, t0 = None\<rparr>"
  using assms
  by (simp add: ModbusSerialClient_init_def Let_def fl_0_00175 round_0_00175)

lemma fl_rel_error:
  assumes "1 / 2 ^ 20 \<le> x"
  shows "\<bar>fl x - x\<bar> \<le> x / 2 ^ 53"
proof -
  have "(2::rat) powi (- 1022) \<le> 2 powi (- 20)"
    by (intro power_int_increasing) simp_all
  also have "\<dots> = 1 / 2 ^ 20" by (simp add: power_int_minus_divide)
  finally have "2 powi (- 1022) \<le> x" using assms by simp
  then show ?thesis by (rule fl_error)
qed

lemma abs_diff_le_D:
  fixes a b c :: rat
  assumes "\<bar>a - b\<bar> \<le> c"
  shows "b - c \<le> a" and "a \<le> b + c"
  using assms by linarith+

lemma abs_diff_le_I:
  fixes a b c :: rat
  assumes "b - c \<le> a" and "a \<le> b + c"
  shows "\<bar>a - b\<bar> \<le> c"
  using assms by linarith

lemma char_time_range:
  assumes "0 < n" and "n \<le> 19200"
  shows "11 / 19200 \<le> 11 / (of_int n :: rat)" and "11 / (of_int n :: rat) \<le> 11"
proof -
  have p: "(1::rat) \<le> of_int n" using assms(1) by simp
  have q: "(of_int n :: rat) \<le> 19200"
  proof -
    have "(of_int n :: rat) \<le> of_int 19200" using assms(2) by (simp only: of_int_le_iff)
    then show ?thesis by simp
  qed
  show "11 / 19200 \<le> 11 / (of_int n :: rat)"
    using p q by (intro divide_left_mono) simp_all
  show "11 / (of_int n :: rat) \<le> 11"
    using p by (simp add: field_simps)
qed

lemma slow_timing:
  assumes "0 < n" and "n \<le> 19200"
  defines "x \<equiv> 11 / (of_int n :: rat)"
  defines "t \<equiv> fl x"
  defines "u \<equiv> fl (7 / 2 * t)"
  shows "\<bar>fl (3 / 2 * t) - 3 / 2 * x\<bar> \<le> 1 / 10 ^ 13"
    and "19 / 10000 \<le> u" and "u \<le> 43"
    and "\<bar>py_round 6 u - 7 / 2 * x\<bar> \<le> 1 / (2 * 10 ^ 6) + 1 / 10 ^ 13"
proof -
  have x: "11 / 19200 \<le> x" "x \<le> 11"
    unfolding x_def using char_time_range [OF assms(1,2)] by simp_all
  have t: "\<bar>t - x\<bar> \<le> x / 2 ^ 53"
    unfolding t_def using x(1) by (intro fl_rel_error) simp
  note t' = abs_diff_le_D [OF t]
  have tb: "57 / 100000 \<le> t" "t \<le> 12" using t' x by simp_all
  have u: "\<bar>u - 7 / 2 * t\<bar> \<le> 7 / 2 * t / 2 ^ 53"
    unfolding u_def using tb(1) by (intro fl_rel_error) simp
  note u' = abs_diff_le_D [OF u]
  show ub: "19 / 10000 \<le> u" "u \<le> 43" using u' tb by simp_all
  have i: "\<bar>fl (3 / 2 * t) - 3 / 2 * t\<bar> \<le> 3 / 2 * t / 2 ^ 53"
    using tb(1) by (intro fl_rel_error) simp
  note i' = abs_diff_le_D [OF i]
  show "\<bar>fl (3 / 2 * t) - 3 / 2 * x\<bar> \<le> 1 / 10 ^ 13"
    using i' t' tb x by (intro abs_diff_le_I) simp_all
  define k where "k = round_half_even (u * 10 ^ 6)"
  have k: "\<bar>of_int k - u * 10 ^ 6\<bar> \<le> 1 / 2"
    unfolding k_def by (rule round_half_even_error)
  note k' = abs_diff_le_D [OF k]
  have k1: "(1::rat) \<le> of_int k"
  proof -
    have "(1/2 :: rat) < of_int k" using k' ub(1) by simp
    then have "(0::rat) < of_int k" by simp
    then have "0 < k" by (simp only: of_int_0_less_iff)
    then show ?thesis by simp
  qed
  have v: "\<bar>fl (of_int k / 10 ^ 6) - of_int k / 10 ^ 6\<bar> \<le> of_int k / 10 ^ 6 / 2 ^ 53"
    using k1 by (intro fl_rel_error) (simp add: field_simps)
  note v' = abs_diff_le_D [OF v]
  have pr: "py_round 6 u = fl (of_int k / 10 ^ 6)"
    by (simp add: py_round_def k_def)
  show "\<bar>py_round 6 u - 7 / 2 * x\<bar> \<le> 1 / (2 * 10 ^ 6) + 1 / 10 ^ 13"
    unfolding pr using v' k' u' t' tb x ub by (intro abs_diff_le_I) simp_all
qed

lemma slow_max:
  assumes "0 < n" and "n \<le> 19200"
  shows "max (fl (7 / 4000)) (fl (7 / 2 * fl (11 / of_int n))) = fl (7 / 2 * fl (11 / of_int n))"
proof -
  have "fl (7 / 4000) \<le> 19 / 10000" unfolding fl_0_00175 by simp
  with slow_timing(2) [OF assms] show ?thesis by simp
qed

lemma slow_rounded:
  assumes "0 < n" and "n \<le> 19200"
  shows "microsecond_rounded (py_round 6 (fl (7 / 2 * fl (11 / of_int n))))"
  unfolding microsecond_rounded_def
  using slow_timing(2,3) [OF assms] by (intro py_round6_idem) simp_all

text \<open>
  C1. A client constructed with an RTU framer and a baud rate \<open>b > 0\<close>.
  If \<open>b > 19200\<close>, the silent interval is the float \<open>0.00175\<close> (1.75 ms, to within
  \<open>1 / 10 ^ 19\<close> s) and nothing else is computed. If \<open>b \<le> 19200\<close>, with \<open>x = 11 / b\<close>: the character time is the float
  quotient \<open>fl x\<close>, the inter-character timeout is the float product \<open>1.5 * fl x\<close>, and the
  silent interval is the float product \<open>3.5 * fl x\<close> rounded to six decimal places;
  the maximum of 1.75 ms and \<open>3.5 * fl x\<close> is \<open>3.5 * fl x\<close>, so the silent interval is
  also that maximum rounded to six decimal places. Measured against exact arithmetic, the stored
  silent interval is within half a microsecond (plus \<open>1 / 10 ^ 13\<close> s of float error)
  of \<open>3.5 * x\<close>, and the inter-character timeout within \<open>1 / 10 ^ 13\<close> s of \<open>1.5 * x\<close>.
\<close>

theorem rtu_timing:
  fixes ps :: params
  defines "x \<equiv> 11 / of_int (baudrate ps)"
  assumes "0 < baudrate ps"
  shows "(19200 < baudrate ps \<longrightarrow>
            ModbusSerialClient_init ModbusRtuFramer ps =
              Inr \<lparr>framer = ModbusRtuFramer, params = ps, socket = None, last_frame_end = None,
                   state = IDLE, inter_char_timeout = 0,
                   silent_interval = fl (7 / 4000), t0 = None\<rparr>) \<and>
         (baudrate ps \<le> 19200 \<longrightarrow>
            ModbusSerialClient_init ModbusRtuFramer ps =
              Inr \<lparr>framer = ModbusRtuFramer, params = ps, socket = None, last_frame_end = None,
                   state = IDLE,
                   inter_char_timeout = fl (3 / 2 * fl x),
                   silent_interval = py_round 6 (fl (7 / 2 * fl x)),
                   t0 = Some (fl x)\<rparr> \<and>
            py_round 6 (max (fl (7 / 4000)) (fl (7 / 2 * fl x))) = py_round 6 (fl (7 / 2 * fl x)) \<and>
            max (fl (7 / 4000)) (fl (7 / 2 * fl x)) = fl (7 / 2 * fl x) \<and>
            \<bar>py_round 6 (fl (7 / 2 * fl x)) - 7 / 2 * x\<bar> \<le> 1 / (2 * 10 ^ 6) + 1 / 10 ^ 13 \<and>
            \<bar>fl (3 / 2 * fl x) - 3 / 2 * x\<bar> \<le> 1 / 10 ^ 13) \<and>
         \<bar>fl (7 / 4000) - 7 / 4000\<bar> \<le> 1 / 10 ^ 19"
proof (intro conjI impI)
  show "\<bar>fl (7 / 4000) - 7 / 4000\<bar> \<le> 1 / 10 ^ 19"
    unfolding fl_0_00175 by simp
next
  assume "19200 < baudrate ps"
  then show "ModbusSerialClient_init ModbusRtuFramer ps =
              Inr \<lparr>framer = ModbusRtuFramer, params = ps, socket = None, last_frame_end = None,
                   state = IDLE, inter_char_timeout = 0,
                   silent_interval = fl (7 / 4000), t0 = None\<rparr>"
    using fl_0_00175 by (simp add: init_rtu_fast)
next
  assume le: "baudrate ps \<le> 19200"
  have m: "max (fl (7 / 4000)) (fl (7 / 2 * fl x)) = fl (7 / 2 * fl x)"
    unfolding x_def by (rule slow_max [OF assms(2) le])
  show "max (fl (7 / 4000)) (fl (7 / 2 * fl x)) = fl (7 / 2 * fl x)" by (rule m)
  show "py_round 6 (max (fl (7 / 4000)) (fl (7 / 2 * fl x))) = py_round 6 (fl (7 / 2 * fl x))"
    by (simp only: m)
  show "ModbusSerialClient_init ModbusRtuFramer ps =
              Inr \<lparr>framer = ModbusRtuFramer, params = ps, socket = None, last_frame_end = None,
                   state = IDLE,
                   inter_char_timeout = fl (3 / 2 * fl x),
                   silent_interval = py_round 6 (fl (7 / 2 * fl x)),
                   t0 = Some (fl x)\<rparr>"
    unfolding x_def by (rule init_rtu_slow [OF assms(2) le])
  show "\<bar>py_round 6 (fl (7 / 2 * fl x)) - 7 / 2 * x\<bar> \<le> 1 / (2 * 10 ^ 6) + 1 / 10 ^ 13"
    unfolding x_def by (rule slow_timing(4) [OF assms(2) le])
  show "\<bar>fl (3 / 2 * fl x) - 3 / 2 * x\<bar> \<le> 1 / 10 ^ 13"
    unfolding x_def by (rule slow_timing(1) [OF assms(2) le])
qed

lemma eval_9600:
  "fl (11 / 9600) = 2642111781390691 / 2305843009213693952"
  "fl (3 / 2 * (2642111781390691 / 2305843009213693952)) = 7926335344172073 / 4611686018427387904"
  "fl (7 / 2 * (2642111781390691 / 2305843009213693952)) = 4623695617433709 / 1152921504606846976"
  "max (8070450532247929 / 4611686018427387904) (4623695617433709 / 1152921504606846976 :: rat)
     = 4623695617433709 / 1152921504606846976"
  "py_round 6 (4623695617433709 / 1152921504606846976) = 288950952092091 / 72057594037927936"
  by code_simp+

theorem rtu_timing_witness:
  "0 < baudrate (example_params 9600) \<and> baudrate (example_params 9600) \<le> 19200 \<and>
   ModbusSerialClient_init ModbusRtuFramer (example_params 9600) = Inr rtu_9600 \<and>
   \<bar>silent_interval rtu_9600 - 7 / 2 * (11 / 9600)\<bar> \<le> 1 / (2 * 10 ^ 6) + 1 / 10 ^ 13 \<and>
   \<bar>inter_char_timeout rtu_9600 - 3 / 2 * (11 / 9600)\<bar> \<le> 1 / 10 ^ 13 \<and>
   0 < baudrate (example_params 38400) \<and> 19200 < baudrate (example_params 38400) \<and>
   ModbusSerialClient_init ModbusRtuFramer (example_params 38400) = Inr rtu_38400"
proof -
  have h: "0 < baudrate (example_params 9600)" "baudrate (example_params 9600) \<le> 19200"
    "0 < baudrate (example_params 38400)" "19200 < baudrate (example_params 38400)"
    by (simp_all add: example_params_def)
  have x: "11 / of_int (baudrate (example_params 9600)) = (11 / 9600 :: rat)"
    by (simp add: example_params_def)
  note slow = rtu_timing [OF h(1), THEN conjunct2, THEN conjunct1, rule_format, OF h(2),
      unfolded x eval_9600 fl_0_00175]
  note fast = rtu_timing [OF h(3), THEN conjunct1, rule_format, OF h(4), unfolded fl_0_00175]
  from slow have c1: "ModbusSerialClient_init ModbusRtuFramer (example_params 9600) = Inr rtu_9600"
    unfolding rtu_9600_def by (rule conjunct1)
  from fast have c2: "ModbusSerialClient_init ModbusRtuFramer (example_params 38400) = Inr rtu_38400"
    unfolding rtu_38400_def .
  from slow have b1:
    "\<bar>288950952092091 / 72057594037927936 - 7 / 2 * (11 / 9600 :: rat)\<bar>
       \<le> 1 / (2 * 10 ^ 6) + 1 / 10 ^ 13"
    by (elim conjE)
  from slow have b2:
    "\<bar>7926335344172073 / 4611686018427387904 - 3 / 2 * (11 / 9600 :: rat)\<bar> \<le> 1 / 10 ^ 13"
    by (elim conjE)
  from h c1 c2 b1 b2 show ?thesis
    by (simp add: rtu_9600_def)
qed

lemma fast_rounded: "microsecond_rounded (8070450532247929 / 4611686018427387904)"
  unfolding microsecond_rounded_def by (rule round_0_00175)

text \<open>
  C8, as amended. A client constructed with an RTU framer and a baud rate \<open>b > 0\<close>: the
  stored silent interval is rounded to microsecond precision (it is the result of
  \<open>round(_, 6)\<close>, and rounding it again gives it back); the inter-character timeout is
  stored as computed, unrounded: the float product \<open>1.5 * fl (11 / b)\<close> when \<open>b \<le> 19200\<close>,
  and the class default 0 when \<open>b > 19200\<close>.
\<close>

theorem rtu_rounding:
  assumes "0 < baudrate ps"
  shows "\<exists>self. ModbusSerialClient_init ModbusRtuFramer ps = Inr self \<and>
           microsecond_rounded (silent_interval self) \<and>
           silent_interval self =
             py_round 6 (if 19200 < baudrate ps then fl (7 / 4000)
                         else fl (7 / 2 * fl (11 / of_int (baudrate ps)))) \<and>
           inter_char_timeout self =
             (if 19200 < baudrate ps then 0 else fl (3 / 2 * fl (11 / of_int (baudrate ps))))"
proof (cases "19200 < baudrate ps")
  case True
  then show ?thesis
    using fast_rounded by (simp add: init_rtu_fast fl_0_00175 round_0_00175)
next
  case False
  then have le: "baudrate ps \<le> 19200" by simp
  show ?thesis
    using False slow_rounded [OF assms le] by (simp add: init_rtu_slow [OF assms le])
qed

theorem rtu_rounding_witness:
  "0 < baudrate (example_params 9600) \<and>
   ModbusSerialClient_init ModbusRtuFramer (example_params 9600) = Inr rtu_9600 \<and>
   microsecond_rounded (silent_interval rtu_9600) \<and>
   inter_char_timeout rtu_9600 = fl (3 / 2 * fl (11 / 9600))"
proof -
  have h: "0 < baudrate (example_params 9600)" by (simp add: example_params_def)
  have c: "ModbusSerialClient_init ModbusRtuFramer (example_params 9600) = Inr rtu_9600"
    by code_simp
  from rtu_rounding [OF h] obtain self where
    s: "ModbusSerialClient_init ModbusRtuFramer (example_params 9600) = Inr self"
      "microsecond_rounded (silent_interval self)"
      "inter_char_timeout self =
         (if 19200 < baudrate (example_params 9600) then 0
          else fl (3 / 2 * fl (11 / of_int (baudrate (example_params 9600)))))"
    by blast
  from s(1) c have "self = rtu_9600" by simp
  with s(2,3) h c show ?thesis by (simp add: example_params_def)
qed

text \<open>
  C8 as stated fails for the inter-character timeout: at 9600 baud it is the float
  nearest to \<open>0.00171875\<close>, and rounding it to six decimal places gives the different
  float \<open>0.001719\<close>.
\<close>

theorem rtu_rounding_counterexample:
  "ModbusSerialClient_init ModbusRtuFramer (example_params 9600) = Inr rtu_9600 \<and>
   py_round 6 (inter_char_timeout rtu_9600) = fl (1719 / 1000000) \<and>
   inter_char_timeout rtu_9600 \<noteq> fl (1719 / 1000000) \<and>
   \<not> microsecond_rounded (inter_char_timeout rtu_9600)"
  by code_simp

section \<open>The synchronous \<open>send\<close>\<close>

lemma base_send_state:
  "ModbusBaseClient_send self request =
     self\<lparr>state := (if state self = RETRYING then RETRYING else SENDING)\<rparr>"
  by (simp add: ModbusBaseClient_send_def)

text \<open>
  C4, as amended. \<open>send\<close> on a client whose socket is not open raises
  \<open>ConnectionException\<close>, for every payload, and there is no port it could have written
  to. The inherited \<open>send\<close> has run by then (\<open>super().send(request)\<close> is the first
  statement), and the client is left exactly as the inherited \<open>send\<close> left it: with the
  base class's method the transaction state is \<open>SENDING\<close> afterwards unless it was
  \<open>RETRYING\<close>, and nothing else has changed.
\<close>

theorem send_closed_raises:
  assumes "socket self = None"
  shows "(socket (super_send self request) = None \<longrightarrow>
            send super_send self request = (Inl ConnectionException, super_send self request)) \<and>
         send ModbusBaseClient_send self request =
           (Inl ConnectionException,
            self\<lparr>state := (if state self = RETRYING then RETRYING else SENDING)\<rparr>)"
  using assms by (simp add: send_def base_send_state)

theorem send_closed_raises_witness:
  "socket (example_client SENDING None) = None \<and>
   socket (ModbusBaseClient_send (example_client SENDING None) [1, 3, 0, 0, 0, 1]) = None \<and>
   send ModbusBaseClient_send (example_client SENDING None) [1, 3, 0, 0, 0, 1]
     = (Inl ConnectionException, example_client SENDING None) \<and>
   socket (example_client RETRYING None) = None \<and>
   send ModbusBaseClient_send (example_client RETRYING None) [1, 3, 0, 0, 0, 1]
     = (Inl ConnectionException, example_client RETRYING None)"
proof -
  let ?req = "[1, 3, 0, 0, 0, 1] :: bytes"
  have h: "socket (example_client st None) = None" for st
    by (simp add: example_client_def)
  have h': "socket (ModbusBaseClient_send (example_client SENDING None) ?req) = None"
    by (simp add: example_client_def base_send_state)
  from send_closed_raises [OF h [of SENDING], where super_send = ModbusBaseClient_send
         and request = ?req]
       send_closed_raises [OF h [of RETRYING], where super_send = ModbusBaseClient_send
         and request = ?req] h h'
  show ?thesis by (simp add: example_client_def base_send_state)
qed

text \<open>
  C4 as stated fails in its last part: on a closed client in state \<open>IDLE\<close> the call
  raises \<open>ConnectionException\<close> with the transaction state changed to \<open>SENDING\<close>, the
  inherited \<open>send\<close> having run before the socket is looked at.
\<close>

theorem send_closed_raises_counterexample:
  "state (example_client IDLE None) = IDLE \<and>
   socket (example_client IDLE None) = None \<and>
   fst (send ModbusBaseClient_send (example_client IDLE None) [1, 3, 0, 0, 0, 1])
     = Inl ConnectionException \<and>
   state (snd (send ModbusBaseClient_send (example_client IDLE None) [1, 3, 0, 0, 0, 1]))
     = SENDING"
  by (simp add: send_def base_send_state example_client_def)

text \<open>
  C10, as amended. \<open>send\<close> of an empty payload on an open client returns 0 and does no
  I/O: the port is afterwards what it was, the receive buffer not drained and nothing
  written. The client is left exactly as the inherited \<open>send\<close> left it: with the base
  class's method the transaction state is \<open>SENDING\<close> afterwards unless it was \<open>RETRYING\<close>,
  and nothing else has changed.
\<close>

theorem send_empty_payload:
  assumes "socket self = Some sk"
  shows "(socket (super_send self []) \<noteq> None \<longrightarrow>
            send super_send self [] = (Inr (Size 0), super_send self [])) \<and>
         send ModbusBaseClient_send self [] =
           (Inr (Size 0), self\<lparr>state := (if state self = RETRYING then RETRYING else SENDING)\<rparr>) \<and>
         socket (snd (send ModbusBaseClient_send self [])) = Some sk"
  using assms by (auto simp add: send_def base_send_state)

theorem send_empty_payload_witness:
  "socket (example_client SENDING (Some stale_port)) = Some stale_port \<and>
   socket (ModbusBaseClient_send (example_client SENDING (Some stale_port)) []) \<noteq> None \<and>
   send ModbusBaseClient_send (example_client SENDING (Some stale_port)) []
     = (Inr (Size 0), example_client SENDING (Some stale_port)) \<and>
   socket (example_client IDLE (Some stale_port)) = Some stale_port \<and>
   send ModbusBaseClient_send (example_client IDLE (Some stale_port)) []
     = (Inr (Size 0), example_client SENDING (Some stale_port))"
proof -
  have h: "socket (example_client st (Some stale_port)) = Some stale_port" for st
    by (simp add: example_client_def)
  have h': "socket (ModbusBaseClient_send (example_client SENDING (Some stale_port)) []) \<noteq> None"
    by (simp add: example_client_def base_send_state)
  from send_empty_payload [OF h [of SENDING], where super_send = ModbusBaseClient_send]
       send_empty_payload [OF h [of IDLE], where super_send = ModbusBaseClient_send] h h'
  show ?thesis by (simp add: example_client_def base_send_state)
qed

text \<open>
  C10 as stated fails in its last part: an empty payload sent on an open client in
  state \<open>IDLE\<close> returns 0 with the port untouched, but the transaction state is
  \<open>SENDING\<close> afterwards.
\<close>

theorem send_empty_payload_counterexample:
  "state (example_client IDLE (Some stale_port)) = IDLE \<and>
   send ModbusBaseClient_send (example_client IDLE (Some stale_port)) []
     = (Inr (Size 0), example_client SENDING (Some stale_port)) \<and>
   state (example_client SENDING (Some stale_port)) \<noteq> IDLE"
  by (simp add: send_def base_send_state example_client_def)



section \<open>The synchronous \<open>recv\<close>\<close>

lemma recv_size_replaced:
  assumes "serial_in_waiting sk = Inr waiting" and "waiting < sz"
    and "wait_for_data (timeout (params self)) sk = Some (Inr sz', sk')"
  shows "recv_sized self sk sz = Some (recv_read self sk' sz')"
  using assms by (simp add: recv_sized_def)

text \<open>
  C9. \<open>recv\<close> with an explicit size can return more bytes than were asked for. Two bytes
  are requested while one is in the buffer, so the size is replaced by what the polling
  loop settles on; four more bytes arrive during the loop's first sleep, the count
  settles at five, and five bytes are returned. (The inherited \<open>recv\<close> runs first and is
  not among the sources; the statement is for one that leaves the object untouched.)
\<close>

theorem recv_returns_more_than_requested:
  assumes "super_recv (example_client IDLE (Some bursty_port)) (Some 2)
             = example_client IDLE (Some bursty_port)"
  shows "recv super_recv (example_client IDLE (Some bursty_port)) (Some 2)
           = Some (Inr [1, 2, 3, 4, 5],
                   example_client IDLE
                     (Some (bursty_port\<lparr>rx_buffer := [], arrivals := [], now := 1 / 50\<rparr>))) \<and>
         2 < length [1, 2, 3, 4, 5 :: 8 word]"
proof -
  let ?self = "example_client IDLE (Some bursty_port)"
  have w: "wait_for_data (timeout (params ?self)) bursty_port
             = Some (Inr 5, bursty_port\<lparr>rx_buffer := [1, 2, 3, 4, 5], arrivals := [], now := 1 / 50\<rparr>)"
    by (simp add: wait_for_data_def wait_loop.simps condition_def serial_in_waiting_def
        time_sleep_def bursty_port_def example_client_def rtu_9600_def example_params_def)
  have c: "serial_in_waiting bursty_port = Inr 1"
    by (simp add: serial_in_waiting_def bursty_port_def)
  have "recv_sized ?self bursty_port 2
          = Some (recv_read ?self
                    (bursty_port\<lparr>rx_buffer := [1, 2, 3, 4, 5], arrivals := [], now := 1 / 50\<rparr>) 5)"
    by (rule recv_size_replaced [OF c _ w]) simp
  also have "recv_read ?self
               (bursty_port\<lparr>rx_buffer := [1, 2, 3, 4, 5], arrivals := [], now := 1 / 50\<rparr>) 5
          = (Inr [1, 2, 3, 4, 5],
             example_client IDLE
               (Some (bursty_port\<lparr>rx_buffer := [], arrivals := [], now := 1 / 50\<rparr>)))"
    by (simp add: recv_read_def serial_read_def example_client_def)
  finally have r: "recv_sized ?self bursty_port 2
          = Some (Inr [1, 2, 3, 4, 5],
                  example_client IDLE
                    (Some (bursty_port\<lparr>rx_buffer := [], arrivals := [], now := 1 / 50\<rparr>)))" .
  have "socket ?self = Some bursty_port"
    by (simp add: example_client_def)
  with assms r show ?thesis
    by (simp add: recv_def Let_def)
qed

theorem recv_returns_more_than_requested_witness:
  "inherited_noop (example_client IDLE (Some bursty_port)) (Some (2 :: nat))
     = example_client IDLE (Some bursty_port) \<and>
   recv inherited_noop (example_client IDLE (Some bursty_port)) (Some 2)
     = Some (Inr [1, 2, 3, 4, 5],
             example_client IDLE
               (Some (bursty_port\<lparr>rx_buffer := [], arrivals := [], now := 1 / 50\<rparr>)))"
proof -
  have h: "inherited_noop (example_client IDLE (Some bursty_port)) (Some (2 :: nat))
             = example_client IDLE (Some bursty_port)"
    by (simp add: inherited_noop_def)
  from recv_returns_more_than_requested [of inherited_noop] h show ?thesis by simp
qed

section \<open>The reconnect manager\<close>

subsection \<open>Events one at a time\<close>

lemma step_Close: "step (Close during) self = close (fold step during) self"
  by (simp add: fold_map comp_def)

lemma fold_step_preserves:
  assumes "\<And>ev s. ev \<in> set evs \<Longrightarrow> P s \<Longrightarrow> P (step ev s)" and "P self"
  shows "P (fold step evs self)"
  using assms by (induction evs arbitrary: self) simp_all

text \<open>\<open>close\<close> in three moves: up to its wait, the wait, and from the cancel on.\<close>

lemma close_unfold:
  "close meanwhile self =
     (let before = (if connected self \<and> transport self
                    then self\<lparr>delay_ms := 0, transport_closes := transport_closes self + 1\<rparr>
                    else self\<lparr>delay_ms := 0\<rparr>);
          after = (if connected self then meanwhile before else before)
      in after\<lparr>pending := (case reconnect_task after of None \<Rightarrow> pending after
                             | Some t \<Rightarrow> removeAll t (pending after)),
               reconnect_task := None\<rparr>)"
  by (simp add: close_def Let_def split: option.splits)

lemma awake_unfold:
  "reconnect_awake self =
     self\<lparr>slept := slept self @ [delay_ms self],
          delay_ms := min (2 * delay_ms self) (reconnect_delay_max self),
          reconnect_task := None,
          reconnects := reconnects self + 1\<rparr>"
  by (simp add: reconnect_awake_def Let_def)

subsection \<open>The handle and the event loop agree\<close>

lemma launch_inv: "handle_holds_pending self \<Longrightarrow> handle_holds_pending (launch_reconnect self)"
  by (auto simp: handle_holds_pending_def launch_reconnect_def split: option.splits)

lemma made_inv: "handle_holds_pending self \<Longrightarrow> handle_holds_pending (client_made_connection self)"
  by (auto simp: handle_holds_pending_def client_made_connection_def)

lemma lost_inv: "handle_holds_pending self \<Longrightarrow> handle_holds_pending (client_lost_connection self)"
  using launch_inv [of "self\<lparr>connected := False\<rparr>"]
  by (auto simp: client_lost_connection_def Let_def handle_holds_pending_def)

lemma notify_inv: "handle_holds_pending self \<Longrightarrow> handle_holds_pending (notify n self)"
  by (cases n) (simp_all add: made_inv lost_inv)

lemma connect_inv: "handle_holds_pending self \<Longrightarrow> handle_holds_pending (connect ok self)"
  using launch_inv [of "self\<lparr>attempts := attempts self + 1\<rparr>"]
        made_inv [of "self\<lparr>attempts := attempts self + 1\<rparr>"]
  by (auto simp: connect_def Let_def handle_holds_pending_def)

lemma close_inv:
  assumes "\<And>s. handle_holds_pending s \<Longrightarrow> handle_holds_pending (meanwhile s)"
    and "handle_holds_pending self"
  shows "handle_holds_pending (close meanwhile self)"
proof -
  define before where "before = (if connected self \<and> transport self
                    then self\<lparr>delay_ms := 0, transport_closes := transport_closes self + 1\<rparr>
                    else self\<lparr>delay_ms := 0\<rparr>)"
  define after where "after = (if connected self then meanwhile before else before)"
  have "handle_holds_pending before"
    using assms(2) by (simp add: before_def handle_holds_pending_def)
  then have "handle_holds_pending after"
    using assms(1) by (simp add: after_def)
  then show ?thesis
    unfolding close_unfold Let_def before_def [symmetric] after_def [symmetric]
    by (auto simp: handle_holds_pending_def split: option.splits)
qed

lemma pending_task:
  assumes "handle_holds_pending self" and "t \<in> set (pending self)"
  shows "reconnect_task self = Some t \<and> pending self = [t]"
proof (cases "reconnect_task self")
  case None
  with assms show ?thesis by (simp add: handle_holds_pending_def)
next
  case (Some u)
  with assms show ?thesis by (simp add: handle_holds_pending_def)
qed

lemma awake_inv:
  assumes "t \<in> set (pending self)" and "handle_holds_pending self"
  shows "handle_holds_pending (reconnect_awake (self\<lparr>pending := removeAll t (pending self)\<rparr>))"
  using pending_task [OF assms(2,1)] by (simp add: awake_unfold handle_holds_pending_def)

lemma reconnect_inv:
  "t \<in> set (pending self) \<Longrightarrow> handle_holds_pending self \<Longrightarrow>
     handle_holds_pending (reconnect ok (self\<lparr>pending := removeAll t (pending self)\<rparr>))"
  unfolding reconnect_def by (rule connect_inv) (rule awake_inv)

lemma step_inv: "handle_holds_pending self \<Longrightarrow> handle_holds_pending (step ev self)"
proof (induction ev arbitrary: self)
  case (Connect ok)
  then show ?case by (simp add: connect_inv)
next
  case (Close during)
  show ?case
    unfolding step_Close
    by (rule close_inv [OF fold_step_preserves Close.prems]) (rule Close.IH)
next
  case (Notify n)
  then show ?case by (simp add: notify_inv)
next
  case (Wake t ok)
  then show ?case by (simp add: reconnect_inv)
next
  case (Resume t)
  then show ?case by (simp add: awake_inv)
qed

lemma run_inv: "handle_holds_pending self \<Longrightarrow> handle_holds_pending (run evs self)"
  unfolding run_def by (rule fold_step_preserves) (rule step_inv)

lemma init_inv: "handle_holds_pending (AsyncModbusSerialClient_init d M)"
  by (simp add: handle_holds_pending_def AsyncModbusSerialClient_init_def)

lemma inv_length: "handle_holds_pending self \<Longrightarrow> length (pending self) \<le> 1"
  by (auto simp: handle_holds_pending_def split: option.splits)

text \<open>
  C6. At most one reconnect task is pending, whatever has happened to the client since
  its construction. A launch requested while the handle is set creates nothing: it only
  logs the warning; a loss of connection signalled then clears the connected flag and
  does no more than that.
\<close>

theorem one_pending_reconnect:
  "length (pending (run evs (AsyncModbusSerialClient_init d M))) \<le> 1 \<and>
   (reconnect_task self \<noteq> None \<longrightarrow>
      launch_reconnect self = self\<lparr>ignored := ignored self + 1\<rparr>) \<and>
   (reconnect_task self \<noteq> None \<and> delay_ms self \<noteq> 0 \<longrightarrow>
      client_lost_connection self = self\<lparr>connected := False, ignored := ignored self + 1\<rparr>)"
proof -
  have "length (pending (run evs (AsyncModbusSerialClient_init d M))) \<le> 1"
    by (intro inv_length run_inv init_inv)
  then show ?thesis
    by (simp add: launch_reconnect_def client_lost_connection_def Let_def)
qed

theorem one_pending_reconnect_witness:
  "reconnect_task flapping \<noteq> None \<and> delay_ms flapping \<noteq> 0 \<and>
   length (pending (run [Notify Lost, Notify Lost] (AsyncModbusSerialClient_init 100 300000))) \<le> 1 \<and>
   launch_reconnect flapping = flapping\<lparr>ignored := ignored flapping + 1\<rparr> \<and>
   client_lost_connection flapping = flapping\<lparr>connected := False, ignored := ignored flapping + 1\<rparr> \<and>
   spawned (client_lost_connection flapping) = 1"
proof -
  have h: "reconnect_task flapping \<noteq> None \<and> delay_ms flapping \<noteq> 0" "spawned flapping = 1"
    by (simp_all add: flapping_def run_def AsyncModbusSerialClient_init_def
        client_lost_connection_def launch_reconnect_def Let_def)
  with one_pending_reconnect [of "[Notify Lost, Notify Lost]" 100 300000 flapping]
  show ?thesis by simp
qed

subsection \<open>The ceiling never changes\<close>









subsection \<open>While \<open>close\<close> waits\<close>









subsection \<open>After \<open>close\<close>\<close>









subsection \<open>The delays of a link that stays down\<close>

lemma double_capped:
  fixes M a :: int
  assumes "0 \<le> M"
  shows "min (2 * min a M) M = min (2 * a) M"
  using assms by (auto simp: min_def)

lemma failing_reconnects_state:
  assumes "0 < d" and "0 < M" and "trigger = Notify Lost \<or> trigger = Connect False"
  shows "run (failing_reconnects trigger n) (AsyncModbusSerialClient_init d M) =
           (AsyncModbusSerialClient_init d M)
             \<lparr>delay_ms := (if n = 0 then d else min (d * 2 ^ n) M),
               reconnect_task := Some n, pending := [n], spawned := Suc n,
               slept := map (\<lambda>k. if k = 0 then d else min (d * 2 ^ k) M) [0..<n],
               attempts := (if trigger = Connect False then Suc n else n), reconnects := n\<rparr>"
proof (induction n)
  case 0
  from assms show ?case
    by (auto simp: failing_reconnects_def run_def AsyncModbusSerialClient_init_def
        client_lost_connection_def connect_def launch_reconnect_def Let_def)
next
  case (Suc n)
  let ?cur = "if n = 0 then d else min (d * 2 ^ n) M"
  have nxt: "min (2 * ?cur) M = min (d * 2 ^ Suc n) M"
    using assms(2) double_capped [of M "d * 2 ^ n"] by (simp add: mult.commute mult.left_commute)
  have pos: "0 < min (d * 2 ^ Suc n) M"
    using assms by simp
  have "run (failing_reconnects trigger (Suc n)) (AsyncModbusSerialClient_init d M) =
          step (Wake n False) (run (failing_reconnects trigger n) (AsyncModbusSerialClient_init d M))"
    by (simp add: failing_reconnects_def run_def)
  also have "\<dots> = (AsyncModbusSerialClient_init d M)
             \<lparr>delay_ms := min (d * 2 ^ Suc n) M,
               reconnect_task := Some (Suc n), pending := [Suc n], spawned := Suc (Suc n),
               slept := map (\<lambda>k. if k = 0 then d else min (d * 2 ^ k) M) [0..<Suc n],
               attempts := (if trigger = Connect False then Suc (Suc n) else Suc n),
               reconnects := Suc n\<rparr>"
    unfolding Suc.IH using pos nxt assms(1)
    by (simp add: reconnect_def awake_unfold connect_def launch_reconnect_def Let_def
        AsyncModbusSerialClient_init_def)
  finally show ?case by simp
qed

text \<open>
  C2, as amended. With initial delay \<open>0 < d\<close> and ceiling \<open>0 < M\<close>, on a link that stays
  down: the first reconnect task sleeps \<open>d\<close> milliseconds, and the one that follows
  \<open>N \<ge> 1\<close> failed reconnect attempts in a row sleeps \<open>min (d * 2 ^ N) M\<close>; when \<open>d \<le> M\<close> that
  is \<open>min (d * 2 ^ N) M\<close> for every \<open>N\<close>. A reconnect task whose sleep ends records the
  sleep of the current delay, doubles the delay under the ceiling, clears the handle and
  calls \<open>connect\<close>.
\<close>

theorem reconnect_backoff:
  assumes "0 < d" and "0 < M" and "trigger = Notify Lost \<or> trigger = Connect False"
  shows "slept (run (failing_reconnects trigger (Suc N)) (AsyncModbusSerialClient_init d M)) ! N
           = (if N = 0 then d else min (d * 2 ^ N) M) \<and>
         (d \<le> M \<longrightarrow>
            slept (run (failing_reconnects trigger (Suc N)) (AsyncModbusSerialClient_init d M))
              = map (\<lambda>k. min (d * 2 ^ k) M) [0..<Suc N]) \<and>
         (t \<in> set (pending self) \<longrightarrow>
            step (Wake t ok) self =
              connect ok (self\<lparr>pending := removeAll t (pending self),
                               slept := slept self @ [delay_ms self],
                               delay_ms := min (2 * delay_ms self) (reconnect_delay_max self),
                               reconnect_task := None,
                               reconnects := reconnects self + 1\<rparr>))"
proof -
  let ?f = "\<lambda>k. if k = 0 then d else min (d * 2 ^ k) M"
  have sl: "slept (run (failing_reconnects trigger (Suc N)) (AsyncModbusSerialClient_init d M))
           = map ?f [0..<Suc N]"
    unfolding failing_reconnects_state [OF assms] by simp
  have "map ?f [0..<Suc N] ! N = ?f N"
    by (simp add: nth_append)
  moreover have "d \<le> M \<Longrightarrow> map ?f [0..<Suc N] = map (\<lambda>k. min (d * 2 ^ k) M) [0..<Suc N]"
    by (rule map_cong) auto
  ultimately show ?thesis
    unfolding sl by (simp add: reconnect_def awake_unfold)
qed

theorem reconnect_backoff_witness:
  "(0::int) < 100 \<and> (0::int) < 300000 \<and> (100::int) \<le> 300000 \<and>
   0 \<in> set (pending flapping) \<and>
   slept (run (failing_reconnects (Notify Lost) 4) (AsyncModbusSerialClient_init 100 300000))
     = [100, 200, 400, 800] \<and>
   slept (run (failing_reconnects (Connect False) 13) (AsyncModbusSerialClient_init 100 300000)) ! 12
     = 300000 \<and>
   step (Wake 0 True) flapping =
     connect True (flapping\<lparr>pending := [], slept := [100], delay_ms := 200,
                            reconnect_task := None, reconnects := 1\<rparr>)"
proof -
  have h: "(0::int) < 100" "(0::int) < 300000" by simp_all
  have a: "map (\<lambda>k. min ((100::int) * 2 ^ k) 300000) [0..<Suc 3] = [100, 200, 400, 800]"
    by (simp add: upt_rec)
  have b: "min ((100::int) * 2 ^ 12) 300000 = 300000" by simp
  have f: "pending flapping = [0]" "slept flapping = []" "delay_ms flapping = 100"
    "reconnect_delay_max flapping = 300000" "reconnects flapping = 0"
    by (simp_all add: flapping_def run_def AsyncModbusSerialClient_init_def
        client_lost_connection_def launch_reconnect_def Let_def)
  from reconnect_backoff [OF h, of "Notify Lost" 3 0 flapping True]
       reconnect_backoff [OF h, of "Connect False" 12 0 flapping True] a b f h
  show ?thesis by (simp add: eval_nat_numeral)
qed

text \<open>
  C2 as stated fails when the initial delay exceeds the ceiling: with \<open>d = 100\<close> and
  \<open>M = 50\<close> the first reconnect task sleeps 100 ms, not \<open>min (100 * 2 ^ 0) 50 = 50\<close>. The
  ceiling is applied when the delay is doubled, not to the initial delay.
\<close>

theorem reconnect_backoff_counterexample:
  "slept (run (failing_reconnects (Notify Lost) 1) (AsyncModbusSerialClient_init 100 50)) ! 0 = 100 \<and>
   min (100 * 2 ^ 0) 50 = (50::int) \<and>
   slept (run (failing_reconnects (Notify Lost) 1) (AsyncModbusSerialClient_init 100 50)) ! 0
     \<noteq> min (100 * 2 ^ 0) 50"
  by (simp add: failing_reconnects_def run_def AsyncModbusSerialClient_init_def
      client_lost_connection_def launch_reconnect_def reconnect_def awake_unfold connect_def
      Let_def)

section \<open>\<open>execute\<close> on the bare mixin\<close>

text \<open>
  C5. Whatever the request, \<open>execute\<close> of the mixin itself raises \<open>ModbusException\<close>
  (carrying \<open>INTERNAL_ERROR\<close>) and returns no response.
\<close>

theorem execute_always_raises:
  "execute internal_error request = (Inl (ModbusException internal_error) :: error + 'response) \<and>
   (\<forall>response :: 'response. execute internal_error request \<noteq> Inr response)"
  by (simp add: execute_def)

end
